theory Spec2Isabelle
  imports Main
begin

section \<open>JavaScript values, thrown values and settled promises\<close>

text \<open>
  The hook of \<^verbatim>\<open>src/hooks/usePushNotifications.ts\<close> is embedded function by function.
  An \<^verbatim>\<open>async\<close> function is a function from the answers of its collaborators to the list
  of effects it performs, in order, paired with the way its promise settles:
  \<open>Inl e\<close> when it rejects with the thrown value \<open>e\<close>, \<open>Inr v\<close> when it resolves with \<open>v\<close>.
\<close>

text \<open>
  The values that the type \<^verbatim>\<open>any\<close> admits, as far as \<^verbatim>\<open>JSON.stringify\<close> tells them apart.
  \<open>BigInt\<close> is a bigint primitive. \<open>Ancestor k\<close> is a reference to the \<open>k\<close>-th enclosing array
  or object: the way a finite term holds a cyclic structure, \<^verbatim>\<open>o.self = o\<close> being
  \<open>Obj [(''self'', Ancestor 0)]\<close>.
\<close>

datatype js_value =
    Undefined
  | Null
  | Bool bool
  | Num int
  | BigInt int
  | Str string
  | Arr "js_value list"
  | Obj "(string \<times> js_value) list"
  | Ancestor nat

text \<open>
  A thrown value is an \<^verbatim>\<open>Error\<close> object (its \<^verbatim>\<open>name\<close> and \<^verbatim>\<open>message\<close>) or any other
  value, kept by its string conversion. \<open>template\<close> is the conversion that a template
  literal \<^verbatim>\<open>`${error}`\<close> applies (\<^verbatim>\<open>Error.prototype.toString\<close> for an error object).
\<close>

datatype thrown = ErrorObject string string | Thrown string

definition new_Error :: "string \<Rightarrow> thrown" where
  "new_Error message = ErrorObject ''Error'' message"

fun template :: "thrown \<Rightarrow> string" where
  "template (ErrorObject name message) =
     (if name = [] then message
      else if message = [] then name
      else name @ '': '' @ message)"
| "template (Thrown s) = s"

datatype permission_status = Granted | Denied | Undetermined

datatype android_importance = IMPORTANCE_MAX

record channel_input =
  channel_name :: string
  importance :: android_importance
  vibrationPattern :: "nat list"
  lightColor :: string

text \<open>
  \<^verbatim>\<open>JSON.stringify\<close> throws a \<^verbatim>\<open>TypeError\<close> on the first bigint or cyclic reference that it
  meets, in the order of its traversal (the wording of the message is the engine's);
  otherwise it returns the JSON text of the value, in which a key whose value is
  \<^verbatim>\<open>undefined\<close> does not appear.
\<close>

fun first_some :: "'a option list \<Rightarrow> 'a option" where
  "first_some [] = None"
| "first_some (None # xs) = first_some xs"
| "first_some (Some x # xs) = Some x"

fun stringify_TypeError :: "js_value \<Rightarrow> string option" where
  "stringify_TypeError (BigInt n) = Some ''Do not know how to serialize a BigInt''"
| "stringify_TypeError (Ancestor k) = Some ''Converting circular structure to JSON''"
| "stringify_TypeError (Arr vs) = first_some (map stringify_TypeError vs)"
| "stringify_TypeError (Obj kvs) = first_some (map (\<lambda>kv. stringify_TypeError (snd kv)) kvs)"
| "stringify_TypeError v = None"

datatype json_text = JSON_text js_value

definition JSON_stringify :: "js_value \<Rightarrow> thrown + json_text" where
  "JSON_stringify v =
     (case stringify_TypeError v of
        Some m \<Rightarrow> Inl (ErrorObject ''TypeError'' m)
      | None \<Rightarrow> Inr (JSON_text v))"

record request =
  url :: string
  request_method :: string
  headers :: "(string \<times> string) list"
  request_body :: json_text

record response =
  status :: nat

datatype effect =
    SetNotificationChannelAsync string channel_input
  | GetPermissionsAsync
  | RequestPermissionsAsync
  | GetExpoPushTokenAsync "string option"
  | Alert string
  | ConsoleLog js_value
  | Fetch request

type_synonym 'a async = "effect list \<times> (thrown + 'a)"

definition resolve :: "'a \<Rightarrow> 'a async" where
  "resolve v = ([], Inr v)"

definition throw :: "thrown \<Rightarrow> 'a async" where
  "throw e = ([], Inl e)"

definition evaluate :: "thrown + 'a \<Rightarrow> 'a async" where
  "evaluate outcome = ([], outcome)"

definition perform :: "effect \<Rightarrow> 'a \<Rightarrow> 'a async" where
  "perform e v = ([e], Inr v)"

definition await :: "effect \<Rightarrow> thrown + 'a \<Rightarrow> 'a async" where
  "await e outcome = ([e], outcome)"

definition andThen :: "'a async \<Rightarrow> ('a \<Rightarrow> 'b async) \<Rightarrow> 'b async" where
  "andThen m f =
     (case m of
        (es, Inl e) \<Rightarrow> (es, Inl e)
      | (es, Inr v) \<Rightarrow> (case f v of (es', r) \<Rightarrow> (es @ es', r)))"

definition tryCatch :: "'a async \<Rightarrow> (thrown \<Rightarrow> 'a async) \<Rightarrow> 'a async" where
  "tryCatch m h =
     (case m of
        (es, Inl e) \<Rightarrow> (case h e of (es', r) \<Rightarrow> (es @ es', r))
      | (es, Inr v) \<Rightarrow> (es, Inr v))"

section \<open>The collaborators\<close>

text \<open>
  \<^verbatim>\<open>Constants\<close> of expo-constants, as far as the optional chain
  \<^verbatim>\<open>Constants?.expoConfig?.extra?.eas?.projectId ?? Constants?.easConfig?.projectId\<close>
  reads it: \<open>None\<close> is \<^verbatim>\<open>null\<close> or \<^verbatim>\<open>undefined\<close> at that level.
\<close>

record eas_extra =
  eas_projectId :: "string option"

record expo_extra =
  eas :: "eas_extra option"

record expo_config =
  extra :: "expo_extra option"

record eas_config =
  easConfig_projectId :: "string option"

record constants =
  expoConfig :: "expo_config option"
  easConfig :: "eas_config option"

text \<open>
  What the platform answers during one run of the registration. Each of the four calls
  that the code awaits answers with its value or with a thrown value; only the token
  request is inside the \<^verbatim>\<open>try\<close>/\<^verbatim>\<open>catch\<close> of the code.
\<close>

record platform =
  Platform_OS :: string
  Device_isDevice :: bool
  setNotificationChannelAsync :: "thrown + unit"
  getPermissionsAsync :: "thrown + permission_status"
  requestPermissionsAsync :: "thrown + permission_status"
  Constants :: "constants option"
  getExpoPushTokenAsync :: "string option \<Rightarrow> thrown + string"

definition nullish :: "'a option \<Rightarrow> 'a option \<Rightarrow> 'a option" where
  "nullish a b = (case a of None \<Rightarrow> b | Some v \<Rightarrow> Some v)"

definition truthy :: "string option \<Rightarrow> bool" where
  "truthy v = (case v of None \<Rightarrow> False | Some s \<Rightarrow> s \<noteq> [])"

definition expoConfig_source :: "constants option \<Rightarrow> string option" where
  "expoConfig_source c =
     Option.bind (Option.bind (Option.bind (Option.bind c expoConfig) extra) eas) eas_projectId"

definition easConfig_source :: "constants option \<Rightarrow> string option" where
  "easConfig_source c = Option.bind (Option.bind c easConfig) easConfig_projectId"

definition resolveProjectId :: "constants option \<Rightarrow> string option" where
  "resolveProjectId c = nullish (expoConfig_source c) (easConfig_source c)"

section \<open>sendPushNotification\<close>

record SendPushOptions =
  to :: "string list"
  title :: string
  body :: string
  data :: "(string \<times> js_value) list option"

definition message :: "SendPushOptions \<Rightarrow> js_value" where
  "message options =
     Obj [(''to'', Arr (map Str (to options))),
          (''sound'', Str ''default''),
          (''title'', Str (title options)),
          (''body'', Str (body options)),
          (''data'', (case data options of None \<Rightarrow> Undefined | Some d \<Rightarrow> Obj d))]"

text \<open>
  The request that \<^verbatim>\<open>fetch\<close> is called with. Its body is an argument of the call, so
  \<^verbatim>\<open>JSON.stringify(message)\<close> is evaluated before the call is made, and when it throws no
  request is made.
\<close>

definition push_request :: "json_text \<Rightarrow> request" where
  "push_request text =
     \<lparr> url = ''https://exp.host/--/api/v2/push/send'',
       request_method = ''POST'',
       headers = [(''Accept'', ''application/json''),
                  (''Accept-encoding'', ''gzip, deflate''),
                  (''Content-Type'', ''application/json'')],
       request_body = text \<rparr>"

definition sendPushNotification ::
  "(request \<Rightarrow> thrown + response) \<Rightarrow> SendPushOptions \<Rightarrow> unit async" where
  "sendPushNotification fetch options =
     andThen (evaluate (JSON_stringify (message options)))
       (\<lambda>text.
          andThen (await (Fetch (push_request text)) (fetch (push_request text)))
            (\<lambda>_. resolve ()))"

section \<open>The registration procedure\<close>

definition handleRegistrationError :: "string \<Rightarrow> unit async" where
  "handleRegistrationError errorMessage =
     andThen (perform (Alert errorMessage) ())
       (\<lambda>_. throw (new_Error errorMessage))"

definition default_channel :: channel_input where
  "default_channel =
     \<lparr> channel_name = ''default'',
       importance = IMPORTANCE_MAX,
       vibrationPattern = [0, 250, 250, 250],
       lightColor = ''#FF231F7C'' \<rparr>"

definition registerForPushNotificationsAsync :: "platform \<Rightarrow> string option async" where
  "registerForPushNotificationsAsync p =
     andThen
       (if Platform_OS p = ''android''
        then await (SetNotificationChannelAsync ''default'' default_channel)
               (setNotificationChannelAsync p)
        else resolve ())
       (\<lambda>_.
          if Device_isDevice p then
            andThen (await GetPermissionsAsync (getPermissionsAsync p))
              (\<lambda>existingStatus.
                 andThen
                   (if existingStatus \<noteq> Granted
                    then await RequestPermissionsAsync (requestPermissionsAsync p)
                    else resolve existingStatus)
                   (\<lambda>finalStatus.
                      if finalStatus \<noteq> Granted then
                        andThen
                          (handleRegistrationError
                             ''Permission not granted to get push token for push notification!'')
                          (\<lambda>_. resolve None)
                      else
                        (let projectId = resolveProjectId (Constants p) in
                         andThen
                           (if \<not> truthy projectId
                            then handleRegistrationError ''Project ID not found''
                            else resolve ())
                           (\<lambda>_.
                              tryCatch
                                (andThen
                                   (await (GetExpoPushTokenAsync projectId)
                                      (getExpoPushTokenAsync p projectId))
                                   (\<lambda>pushTokenString.
                                      andThen
                                        (perform
                                           (ConsoleLog (Obj [(Platform_OS p, Str pushTokenString)]))
                                           ())
                                        (\<lambda>_. resolve (Some pushTokenString))))
                                (\<lambda>error.
                                   andThen (handleRegistrationError (template error))
                                     (\<lambda>_. resolve None))))))
          else
            andThen
              (handleRegistrationError ''Must use physical device for push notifications'')
              (\<lambda>_. resolve None))"

section \<open>The hook and the process it runs in\<close>

text \<open>
  One activation of \<^verbatim>\<open>usePushNotifications\<close> owns two state cells (\<^verbatim>\<open>useState\<close>), the
  registration it has called while the promise of that has not settled (the effects the
  registration has still to perform, and the way its promise will settle), and the
  cleanup of its second effect when that effect returned one. \<open>mounted\<close> says whether the
  view that uses the hook is mounted. The type \<open>'n\<close> is \<^verbatim>\<open>Notifications.Notification\<close>,
  which the hook stores without reading.
\<close>

record 'n hook_instance =
  expoPushToken :: string
  notifications :: "'n list"
  registration :: "string option async option"
  cleanup :: bool
  mounted :: bool

text \<open>
  A subscription made by \<^verbatim>\<open>addNotificationReceivedListener\<close>: the callback calls the
  \<^verbatim>\<open>setNotifications\<close> of the activation that subscribed, and reads the variable
  \<^verbatim>\<open>notifications\<close> of the render in which the effect ran.
\<close>

record 'n subscription =
  owner :: nat
  closure_notifications :: "'n list"

record 'n process =
  areListenersReady :: bool
  instances :: "'n hook_instance list"
  notificationListeners :: "'n subscription list"
  responseListeners :: "nat list"
  effects :: "effect list"
  unhandledRejections :: "thrown list"

definition process_start :: "'n process" where
  "process_start =
     \<lparr> areListenersReady = False, instances = [], notificationListeners = [],
       responseListeners = [], effects = [], unhandledRejections = [] \<rparr>"

definition first_render :: "'n hook_instance" where
  "first_render =
     \<lparr> expoPushToken = [], notifications = [], registration = None, cleanup = False,
       mounted = True \<rparr>"

text \<open>
  The two state setters of activation \<open>i\<close>. React drops the state update of a component
  that is no longer mounted.
\<close>

definition setExpoPushToken :: "nat \<Rightarrow> string \<Rightarrow> 'n process \<Rightarrow> 'n process" where
  "setExpoPushToken i v s =
     (if i < length (instances s) \<and> mounted (instances s ! i)
      then s\<lparr>instances := (instances s)[i := (instances s ! i)\<lparr>expoPushToken := v\<rparr>]\<rparr>
      else s)"

definition setNotifications :: "nat \<Rightarrow> 'n list \<Rightarrow> 'n process \<Rightarrow> 'n process" where
  "setNotifications i v s =
     (if i < length (instances s) \<and> mounted (instances s ! i)
      then s\<lparr>instances := (instances s)[i := (instances s ! i)\<lparr>notifications := v\<rparr>]\<rparr>
      else s)"

text \<open>
  \<^verbatim>\<open>promise.then(f)\<close> and \<^verbatim>\<open>promise.catch(g)\<close> on a settled promise; the callbacks
  change the state of the process.
\<close>

definition promise_then ::
  "(thrown + 'a) \<times> 's \<Rightarrow> ('a \<Rightarrow> 's \<Rightarrow> (thrown + 'b) \<times> 's) \<Rightarrow> (thrown + 'b) \<times> 's" where
  "promise_then m f = (case m of (Inl e, s) \<Rightarrow> (Inl e, s) | (Inr v, s) \<Rightarrow> f v s)"

definition promise_catch ::
  "(thrown + 'a) \<times> 's \<Rightarrow> (thrown \<Rightarrow> 's \<Rightarrow> (thrown + 'a) \<times> 's) \<Rightarrow> (thrown + 'a) \<times> 's" where
  "promise_catch m g = (case m of (Inl e, s) \<Rightarrow> g e s | (Inr v, s) \<Rightarrow> (Inr v, s))"

definition token_or_empty :: "string option \<Rightarrow> string" where
  "token_or_empty token = (case token of None \<Rightarrow> [] | Some t \<Rightarrow> t)"

text \<open>
  The calls at which an \<^verbatim>\<open>async\<close> function suspends. A call of an \<^verbatim>\<open>async\<close> function
  runs up to its first \<^verbatim>\<open>await\<close>: the effects up to and with the first awaited call
  happen within the call, the others after the caller has gone on.
\<close>

fun is_awaited :: "effect \<Rightarrow> bool" where
  "is_awaited (Alert _) = False"
| "is_awaited (ConsoleLog _) = False"
| "is_awaited _ = True"

fun until_first_await :: "effect list \<Rightarrow> effect list" where
  "until_first_await [] = []"
| "until_first_await (e # es) = (if is_awaited e then [e] else e # until_first_await es)"

fun after_first_await :: "effect list \<Rightarrow> effect list" where
  "after_first_await [] = []"
| "after_first_await (e # es) = (if is_awaited e then es else after_first_await es)"

text \<open>
  The first effect (source lines 144 to 149): the call of the registration, which runs up
  to its first \<^verbatim>\<open>await\<close>; the rest of it and the callbacks of its promise run later.
\<close>

definition effect_register :: "platform \<Rightarrow> nat \<Rightarrow> 'n process \<Rightarrow> 'n process" where
  "effect_register p i s =
     (if areListenersReady s then s
      else
        (case registerForPushNotificationsAsync p of
           (es, r) \<Rightarrow>
             s\<lparr>effects := effects s @ until_first_await es,
               instances :=
                 (instances s)
                   [i := (instances s ! i)\<lparr>registration := Some (after_first_await es, r)\<rparr>]\<rparr>))"

text \<open>The second effect (source lines 151 to 174): the guard and the two subscriptions.\<close>

definition effect_listeners :: "nat \<Rightarrow> 'n process \<Rightarrow> 'n process" where
  "effect_listeners i s =
     (if areListenersReady s then s
      else
        s\<lparr>areListenersReady := True,
          notificationListeners :=
            notificationListeners s @
              [\<lparr>owner = i, closure_notifications = notifications (instances s ! i)\<rparr>],
          responseListeners := responseListeners s @ [i],
          instances := (instances s)[i := (instances s ! i)\<lparr>cleanup := True\<rparr>]\<rparr>)"

text \<open>
  One activation (source lines 138 to 184): the first render, then the two effects in the
  order in which the component declares them.
\<close>

definition activate :: "platform \<Rightarrow> 'n process \<Rightarrow> 'n process" where
  "activate p s =
     (let i = length (instances s)
      in effect_listeners i
           (effect_register p i (s\<lparr>instances := instances s @ [first_render]\<rparr>)))"

text \<open>
  The registration of activation \<open>i\<close> runs to its end and its promise settles: the chain
  \<^verbatim>\<open>.then((token) => setExpoPushToken(token ?? "")).catch((error) => setExpoPushToken(`${error}`))\<close>
  runs, whether the view is still mounted or not. A rejection that the chain did not
  handle would be recorded as unhandled.
\<close>

definition settle :: "nat \<Rightarrow> 'n process \<Rightarrow> 'n process" where
  "settle i s =
     (if i < length (instances s) then
        (case registration (instances s ! i) of
           None \<Rightarrow> s
         | Some (es, r) \<Rightarrow>
             (case promise_catch
                     (promise_then
                        (r, s\<lparr>effects := effects s @ es,
                              instances :=
                                (instances s)[i := (instances s ! i)\<lparr>registration := None\<rparr>]\<rparr>)
                        (\<lambda>token s'. (Inr (), setExpoPushToken i (token_or_empty token) s')))
                     (\<lambda>error s'. (Inr (), setExpoPushToken i (template error) s'))
              of
                (Inl e, s') \<Rightarrow> s'\<lparr>unhandledRejections := unhandledRejections s' @ [e]\<rparr>
              | (Inr _, s') \<Rightarrow> s'))
      else s)"

text \<open>
  A notification arrives: the callback of every subscription runs,
  \<^verbatim>\<open>setNotifications([notification, ...notifications])\<close>.
\<close>

definition receive :: "'n \<Rightarrow> 'n process \<Rightarrow> 'n process" where
  "receive notification s =
     fold (\<lambda>l. setNotifications (owner l) (notification # closure_notifications l))
       (notificationListeners s) s"

text \<open>The user interacts with a notification: every response listener logs the response.\<close>

definition respond :: "js_value \<Rightarrow> 'n process \<Rightarrow> 'n process" where
  "respond r s = s\<lparr>effects := effects s @ map (\<lambda>_. ConsoleLog r) (responseListeners s)\<rparr>"

text \<open>
  The view of activation \<open>i\<close> unmounts: the cleanup of the second effect, where there is
  one, removes the two subscriptions. The guard is left as it is.
\<close>

definition run_cleanup :: "nat \<Rightarrow> 'n process \<Rightarrow> 'n process" where
  "run_cleanup i s =
     (if cleanup (instances s ! i) then
        s\<lparr>notificationListeners := filter (\<lambda>l. owner l \<noteq> i) (notificationListeners s),
          responseListeners := filter (\<lambda>j. j \<noteq> i) (responseListeners s)\<rparr>
      else s)"

definition teardown :: "nat \<Rightarrow> 'n process \<Rightarrow> 'n process" where
  "teardown i s =
     (if i < length (instances s) \<and> mounted (instances s ! i) then
        (run_cleanup i s)
          \<lparr>instances := (instances s)[i := (instances s ! i)\<lparr>cleanup := False, mounted := False\<rparr>]\<rparr>
      else s)"

text \<open>What can happen in a process, and a history of such events run from a state.\<close>

datatype 'n event =
    Activate platform
  | Settle nat
  | Receive 'n
  | Respond js_value
  | Teardown nat

fun step :: "'n event \<Rightarrow> 'n process \<Rightarrow> 'n process" where
  "step (Activate p) s = activate p s"
| "step (Settle i) s = settle i s"
| "step (Receive n) s = receive n s"
| "step (Respond r) s = respond r s"
| "step (Teardown i) s = teardown i s"

fun run :: "'n process \<Rightarrow> 'n event list \<Rightarrow> 'n process" where
  "run s [] = s"
| "run s (e # es) = run (step e s) es"

section \<open>Vocabulary of the properties\<close>

text \<open>The notifications delivered during a history, oldest first.\<close>

fun received :: "'n event list \<Rightarrow> 'n list" where
  "received [] = []"
| "received (Receive n # es) = n # received es"
| "received (_ # es) = received es"

text \<open>Which effects are calls to the permission subsystem, and which go over the network.\<close>

definition is_permission_call :: "effect \<Rightarrow> bool" where
  "is_permission_call e = (e = GetPermissionsAsync \<or> e = RequestPermissionsAsync)"

text \<open>The channel setup, where the code makes it, completes.\<close>

definition channel_ready :: "platform \<Rightarrow> bool" where
  "channel_ready p =
     (if Platform_OS p = ''android'' then setNotificationChannelAsync p = Inr () else True)"

text \<open>\<^verbatim>\<open>JSON.stringify\<close> does not throw on the value.\<close>

definition serialisable :: "js_value \<Rightarrow> bool" where
  "serialisable v = (stringify_TypeError v = None)"

fun is_network_call :: "effect \<Rightarrow> bool" where
  "is_network_call (GetExpoPushTokenAsync _) = True"
| "is_network_call (Fetch _) = True"
| "is_network_call _ = False"

text \<open>
  HTTP header names do not distinguish case; \<open>header\<close> reads a header of a request as
  \<^verbatim>\<open>Headers.get\<close> does.
\<close>

definition lowercase :: "char \<Rightarrow> char" where
  "lowercase c =
     (case map_of (zip ''ABCDEFGHIJKLMNOPQRSTUVWXYZ'' ''abcdefghijklmnopqrstuvwxyz'') c of
        None \<Rightarrow> c
      | Some d \<Rightarrow> d)"

definition header :: "request \<Rightarrow> string \<Rightarrow> string option" where
  "header r name =
     map_of (map (\<lambda>(k, v). (map lowercase k, v)) (headers r)) (map lowercase name)"

text \<open>
  Invariants of the process. \<open>pending i r\<close>: the view of activation \<open>i\<close> is mounted, its
  registration has the outcome \<open>r\<close> and the callbacks have not run. \<open>settled i v\<close>:
  activation \<open>i\<close> has no registration in flight and its token is \<open>v\<close>. \<open>stale\<close>: every
  subscription reads an empty \<^verbatim>\<open>notifications\<close>, and no stored list is longer than one
  record. \<open>sole_listener\<close>: the one subscription is that of the first activation, whose
  view is mounted. \<open>silent\<close>: the guard is set and there is no subscription.
  \<open>guarded\<close>: at most one subscription, and none while the guard is unset.
\<close>

definition pending :: "nat \<Rightarrow> thrown + string option \<Rightarrow> 'n process \<Rightarrow> bool" where
  "pending i r s =
     (areListenersReady s \<and> i < length (instances s) \<and> mounted (instances s ! i) \<and>
      map_option snd (registration (instances s ! i)) = Some r)"

definition settled :: "nat \<Rightarrow> string \<Rightarrow> 'n process \<Rightarrow> bool" where
  "settled i v s =
     (areListenersReady s \<and> i < length (instances s) \<and>
      registration (instances s ! i) = None \<and> expoPushToken (instances s ! i) = v)"

definition stale :: "'n process \<Rightarrow> bool" where
  "stale s =
     ((\<forall>l \<in> set (notificationListeners s). closure_notifications l = []) \<and>
      (\<forall>i < length (instances s). length (notifications (instances s ! i)) \<le> 1))"

definition sole_listener :: "'n process \<Rightarrow> bool" where
  "sole_listener s =
     (areListenersReady s \<and> instances s \<noteq> [] \<and>
      mounted (instances s ! 0) \<and> cleanup (instances s ! 0) \<and>
      notificationListeners s = [\<lparr>owner = 0, closure_notifications = []\<rparr>])"

definition silent :: "'n process \<Rightarrow> bool" where
  "silent s = (areListenersReady s \<and> notificationListeners s = [])"

definition guarded :: "'n process \<Rightarrow> bool" where
  "guarded s =
     (length (notificationListeners s) \<le> 1 \<and>
      (\<not> areListenersReady s \<longrightarrow> notificationListeners s = []))"

subsection \<open>Concrete platforms, requests and histories\<close>

definition project_config :: "constants option" where
  "project_config =
     Some \<lparr> expoConfig = Some \<lparr> extra = Some \<lparr> eas = Some \<lparr> eas_projectId = Some ''project-1'' \<rparr> \<rparr> \<rparr>,
            easConfig = None \<rparr>"

definition empty_config :: "constants option" where
  "empty_config = Some \<lparr> expoConfig = Some \<lparr> extra = None \<rparr>, easConfig = None \<rparr>"

definition provider :: "string option \<Rightarrow> thrown + string" where
  "provider projectId = Inr ''ExponentPushToken[abc123]''"

definition emulator :: platform where
  "emulator =
     \<lparr> Platform_OS = ''android'', Device_isDevice = False,
       setNotificationChannelAsync = Inr (),
       getPermissionsAsync = Inr Granted, requestPermissionsAsync = Inr Granted,
       Constants = project_config, getExpoPushTokenAsync = provider \<rparr>"

definition broken_emulator :: platform where
  "broken_emulator =
     \<lparr> Platform_OS = ''android'', Device_isDevice = False,
       setNotificationChannelAsync = Inl (ErrorObject ''Error'' ''channel setup failed''),
       getPermissionsAsync = Inr Granted, requestPermissionsAsync = Inr Granted,
       Constants = project_config, getExpoPushTokenAsync = provider \<rparr>"

definition phone :: platform where
  "phone =
     \<lparr> Platform_OS = ''ios'', Device_isDevice = True,
       setNotificationChannelAsync = Inr (),
       getPermissionsAsync = Inr Granted, requestPermissionsAsync = Inr Denied,
       Constants = project_config, getExpoPushTokenAsync = provider \<rparr>"

definition unconfigured_phone :: platform where
  "unconfigured_phone =
     \<lparr> Platform_OS = ''android'', Device_isDevice = True,
       setNotificationChannelAsync = Inr (),
       getPermissionsAsync = Inr Undetermined, requestPermissionsAsync = Inr Granted,
       Constants = empty_config, getExpoPushTokenAsync = provider \<rparr>"

definition network_down :: "request \<Rightarrow> thrown + response" where
  "network_down r = Inl (ErrorObject ''TypeError'' ''Network request failed'')"

definition server_error :: "request \<Rightarrow> thrown + response" where
  "server_error r = Inr \<lparr> status = 500 \<rparr>"

definition bad_request :: "request \<Rightarrow> thrown + response" where
  "bad_request r = Inr \<lparr> status = 400 \<rparr>"

definition example_options :: SendPushOptions where
  "example_options = \<lparr> to = [''tok1''], title = ''T'', body = ''B'', data = None \<rparr>"

definition order_options :: SendPushOptions where
  "order_options =
     \<lparr> to = [''tok1'', ''tok2''], title = ''Order'', body = ''Shipped'',
       data = Some [(''order'', Num 7), (''items'', Arr [Str ''a'', Null])] \<rparr>"

definition bigint_options :: SendPushOptions where
  "bigint_options =
     \<lparr> to = [''tok1''], title = ''T'', body = ''B'', data = Some [(''amount'', BigInt 1)] \<rparr>"

section \<open>Auxiliary facts\<close>

lemmas async_defs = resolve_def throw_def evaluate_def perform_def await_def andThen_def
  tryCatch_def handleRegistrationError_def

lemma activate_first:
  "\<not> areListenersReady s \<Longrightarrow>
   activate p s =
     s\<lparr>areListenersReady := True,
       instances := instances s @
         [first_render
            \<lparr>registration :=
               Some (after_first_await (fst (registerForPushNotificationsAsync p)),
                     snd (registerForPushNotificationsAsync p)),
             cleanup := True\<rparr>],
       notificationListeners := notificationListeners s @
         [\<lparr>owner = length (instances s), closure_notifications = []\<rparr>],
       responseListeners := responseListeners s @ [length (instances s)],
       effects := effects s @ until_first_await (fst (registerForPushNotificationsAsync p))\<rparr>"
  by (cases "registerForPushNotificationsAsync p")
     (simp add: activate_def effect_register_def effect_listeners_def first_render_def Let_def)

lemma activate_later:
  "areListenersReady s \<Longrightarrow> activate p s = s\<lparr>instances := instances s @ [first_render]\<rparr>"
  by (simp add: activate_def effect_register_def effect_listeners_def Let_def)

lemma fold_setNotifications_fields:
  "areListenersReady (fold (\<lambda>l. setNotifications (owner l) (g l)) ls s) = areListenersReady s"
  "notificationListeners (fold (\<lambda>l. setNotifications (owner l) (g l)) ls s) = notificationListeners s"
  "responseListeners (fold (\<lambda>l. setNotifications (owner l) (g l)) ls s) = responseListeners s"
  "effects (fold (\<lambda>l. setNotifications (owner l) (g l)) ls s) = effects s"
  "unhandledRejections (fold (\<lambda>l. setNotifications (owner l) (g l)) ls s) = unhandledRejections s"
  "length (instances (fold (\<lambda>l. setNotifications (owner l) (g l)) ls s)) = length (instances s)"
  by (induction ls arbitrary: s) (simp_all add: setNotifications_def)

lemma setNotifications_nth:
  "instances (setNotifications j v s) ! i =
     (if i = j \<and> j < length (instances s) \<and> mounted (instances s ! j)
      then (instances s ! i)\<lparr>notifications := v\<rparr>
      else instances s ! i)"
  by (auto simp add: setNotifications_def)

lemma fold_setNotifications_cells:
  "expoPushToken (instances (fold (\<lambda>l. setNotifications (owner l) (g l)) ls s) ! i) = expoPushToken (instances s ! i)"
  "registration (instances (fold (\<lambda>l. setNotifications (owner l) (g l)) ls s) ! i) = registration (instances s ! i)"
  "cleanup (instances (fold (\<lambda>l. setNotifications (owner l) (g l)) ls s) ! i) = cleanup (instances s ! i)"
  "mounted (instances (fold (\<lambda>l. setNotifications (owner l) (g l)) ls s) ! i) = mounted (instances s ! i)"
  by (induction ls arbitrary: s) (simp_all add: setNotifications_nth)

lemma receive_fields:
  "areListenersReady (receive n s) = areListenersReady s"
  "notificationListeners (receive n s) = notificationListeners s"
  "responseListeners (receive n s) = responseListeners s"
  "effects (receive n s) = effects s"
  "unhandledRejections (receive n s) = unhandledRejections s"
  "length (instances (receive n s)) = length (instances s)"
  "expoPushToken (instances (receive n s) ! i) = expoPushToken (instances s ! i)"
  "registration (instances (receive n s) ! i) = registration (instances s ! i)"
  "cleanup (instances (receive n s) ! i) = cleanup (instances s ! i)"
  "mounted (instances (receive n s) ! i) = mounted (instances s ! i)"
  by (simp_all add: receive_def fold_setNotifications_fields fold_setNotifications_cells)

lemma settle_fields:
  "areListenersReady (settle j s) = areListenersReady s"
  "notificationListeners (settle j s) = notificationListeners s"
  "responseListeners (settle j s) = responseListeners s"
  "unhandledRejections (settle j s) = unhandledRejections s"
  "length (instances (settle j s)) = length (instances s)"
  by (simp_all add: settle_def promise_then_def promise_catch_def setExpoPushToken_def
      split: option.splits sum.splits prod.splits)

lemma settle_other:
  "i \<noteq> j \<Longrightarrow> instances (settle j s) ! i = instances s ! i"
  by (simp add: settle_def promise_then_def promise_catch_def setExpoPushToken_def
      split: option.splits sum.splits prod.splits)

lemma settle_cells:
  "notifications (instances (settle j s) ! i) = notifications (instances s ! i)"
  "cleanup (instances (settle j s) ! i) = cleanup (instances s ! i)"
  "mounted (instances (settle j s) ! i) = mounted (instances s ! i)"
  by (cases "i = j";
      simp add: settle_def promise_then_def promise_catch_def setExpoPushToken_def
      split: option.splits sum.splits prod.splits)+

lemma settle_idle:
  "j < length (instances s) \<Longrightarrow> registration (instances s ! j) = None \<Longrightarrow> settle j s = s"
  by (simp add: settle_def)

lemma settle_pending:
  "j < length (instances s) \<Longrightarrow> mounted (instances s ! j) \<Longrightarrow>
   registration (instances s ! j) = Some (es, r) \<Longrightarrow>
   instances (settle j s) ! j =
     (instances s ! j)\<lparr>registration := None,
        expoPushToken := (case r of Inl error \<Rightarrow> template error
                                   | Inr token \<Rightarrow> token_or_empty token)\<rparr>"
  by (simp add: settle_def promise_then_def promise_catch_def setExpoPushToken_def
      split: option.splits sum.splits)

lemma teardown_fields:
  "areListenersReady (teardown j s) = areListenersReady s"
  "effects (teardown j s) = effects s"
  "unhandledRejections (teardown j s) = unhandledRejections s"
  "length (instances (teardown j s)) = length (instances s)"
  by (simp_all add: teardown_def run_cleanup_def)

lemma teardown_nth:
  "instances (teardown j s) ! i =
     (if i = j \<and> j < length (instances s) \<and> mounted (instances s ! j)
      then (instances s ! i)\<lparr>cleanup := False, mounted := False\<rparr> else instances s ! i)"
  by (auto simp add: teardown_def run_cleanup_def)

lemma teardown_listeners:
  "notificationListeners (teardown j s) =
     (if j < length (instances s) \<and> mounted (instances s ! j) \<and> cleanup (instances s ! j)
      then filter (\<lambda>l. owner l \<noteq> j) (notificationListeners s)
      else notificationListeners s)"
  by (simp add: teardown_def run_cleanup_def)

lemma teardown_cells:
  "notifications (instances (teardown j s) ! i) = notifications (instances s ! i)"
  "expoPushToken (instances (teardown j s) ! i) = expoPushToken (instances s ! i)"
  "registration (instances (teardown j s) ! i) = registration (instances s ! i)"
  by (simp_all add: teardown_nth)

lemma step_guard: "areListenersReady s \<Longrightarrow> areListenersReady (step e s)"
  by (cases e) (simp_all add: activate_later receive_fields settle_fields teardown_fields respond_def)

lemma run_guard: "areListenersReady s \<Longrightarrow> areListenersReady (run s es)"
  by (induction es arbitrary: s) (simp_all add: step_guard)

lemma step_unhandled: "unhandledRejections (step e s) = unhandledRejections s"
proof (cases e)
  case (Activate p)
  then show ?thesis
    by (cases "areListenersReady s") (simp_all add: activate_first activate_later)
qed (simp_all add: receive_fields settle_fields teardown_fields respond_def)

lemma run_unhandled: "unhandledRejections (run s es) = unhandledRejections s"
  by (induction es arbitrary: s) (simp_all add: step_unhandled)

lemma run_append: "run s (es @ es') = run (run s es) es'"
  by (induction es arbitrary: s) simp_all

lemma step_settled:
  assumes "settled i v s"
  shows "settled i v (step e s)"
proof (cases e)
  case (Activate p)
  with assms show ?thesis
    by (simp add: settled_def activate_later nth_append)
next
  case (Settle j)
  show ?thesis
  proof (cases "j = i")
    case True
    with assms Settle show ?thesis by (simp add: settled_def settle_idle)
  next
    case False
    with assms Settle show ?thesis by (simp add: settled_def settle_fields settle_other)
  qed
next
  case (Receive n)
  with assms show ?thesis by (simp add: settled_def receive_fields)
next
  case (Respond r)
  with assms show ?thesis by (simp add: settled_def respond_def)
next
  case (Teardown j)
  with assms show ?thesis by (simp add: settled_def teardown_fields teardown_cells)
qed

lemma run_settled: "settled i v s \<Longrightarrow> settled i v (run s es)"
  by (induction es arbitrary: s) (simp_all add: step_settled)

lemma step_pending:
  assumes "pending i r s" and "e \<noteq> Settle i" and "e \<noteq> Teardown i"
  shows "pending i r (step e s)"
proof (cases e)
  case (Activate p)
  with assms show ?thesis
    by (simp add: pending_def activate_later nth_append)
next
  case (Settle j)
  with assms have "i \<noteq> j" by auto
  with assms Settle show ?thesis by (simp add: pending_def settle_fields settle_other)
next
  case (Receive n)
  with assms show ?thesis by (simp add: pending_def receive_fields)
next
  case (Respond r)
  with assms show ?thesis by (simp add: pending_def respond_def)
next
  case (Teardown j)
  with assms have "i \<noteq> j" by auto
  with assms Teardown show ?thesis by (simp add: pending_def teardown_fields teardown_nth)
qed

lemma run_pending:
  "pending i r s \<Longrightarrow> Settle i \<notin> set es \<Longrightarrow> Teardown i \<notin> set es \<Longrightarrow> pending i r (run s es)"
  by (induction es arbitrary: s) (auto simp add: step_pending)

lemma settle_pending_settled:
  assumes "pending i r s"
  shows "settled i (case r of Inl error \<Rightarrow> template error | Inr token \<Rightarrow> token_or_empty token)
           (settle i s)"
proof -
  from assms obtain es where reg: "registration (instances s ! i) = Some (es, r)"
    by (cases "registration (instances s ! i)") (auto simp add: pending_def)
  from assms have "i < length (instances s)" and "mounted (instances s ! i)"
    and "areListenersReady s"
    by (simp_all add: pending_def)
  with reg show ?thesis
    by (simp add: settled_def settle_fields settle_pending)
qed

lemma activate_pending:
  "\<not> areListenersReady s \<Longrightarrow>
   pending (length (instances s)) (snd (registerForPushNotificationsAsync p)) (activate p s)"
  by (simp add: pending_def activate_first first_render_def)

lemma step_guarded:
  assumes "guarded s"
  shows "guarded (step e s)"
proof (cases e)
  case (Activate p)
  with assms show ?thesis
    by (cases "areListenersReady s") (auto simp add: guarded_def activate_first activate_later)
next
  case (Settle j)
  with assms show ?thesis by (simp add: guarded_def settle_fields)
next
  case (Receive n)
  with assms show ?thesis by (simp add: guarded_def receive_fields)
next
  case (Respond r)
  with assms show ?thesis by (simp add: guarded_def respond_def)
next
  case (Teardown j)
  have "length (filter (\<lambda>l. owner l \<noteq> j) (notificationListeners s)) \<le> 1"
    using assms length_filter_le [of "\<lambda>l. owner l \<noteq> j" "notificationListeners s"]
    unfolding guarded_def by linarith
  with assms Teardown show ?thesis
    by (auto simp add: guarded_def teardown_fields teardown_listeners)
qed

lemma run_guarded: "guarded s \<Longrightarrow> guarded (run s es)"
  by (induction es arbitrary: s) (simp_all add: step_guarded)

lemma start_guarded: "guarded (run process_start es)"
  by (rule run_guarded) (simp add: guarded_def process_start_def)

lemma step_silent: "silent s \<Longrightarrow> silent (step e s)"
  by (cases e)
     (simp_all add: silent_def activate_later receive_fields settle_fields teardown_fields
        teardown_listeners respond_def)

lemma run_silent: "silent s \<Longrightarrow> silent (run s es)"
  by (induction es arbitrary: s) (simp_all add: step_silent)

lemma activate_twice:
  "activate p2 (activate p1 process_start) =
     \<lparr> areListenersReady = True,
       instances =
         [first_render
            \<lparr>registration :=
               Some (after_first_await (fst (registerForPushNotificationsAsync p1)),
                     snd (registerForPushNotificationsAsync p1)),
             cleanup := True\<rparr>,
          first_render],
       notificationListeners = [\<lparr>owner = 0, closure_notifications = []\<rparr>],
       responseListeners = [0],
       effects = until_first_await (fst (registerForPushNotificationsAsync p1)),
       unhandledRejections = [] \<rparr>"
proof -
  have a1: "\<not> areListenersReady (process_start :: 'a process)"
    by (simp add: process_start_def)
  have s1: "activate p1 (process_start :: 'a process) =
     \<lparr> areListenersReady = True,
       instances =
         [first_render
            \<lparr>registration :=
               Some (after_first_await (fst (registerForPushNotificationsAsync p1)),
                     snd (registerForPushNotificationsAsync p1)),
             cleanup := True\<rparr>],
       notificationListeners = [\<lparr>owner = 0, closure_notifications = []\<rparr>],
       responseListeners = [0],
       effects = until_first_await (fst (registerForPushNotificationsAsync p1)),
       unhandledRejections = [] \<rparr>"
    unfolding activate_first [OF a1] by (simp add: process_start_def)
  show ?thesis
    unfolding s1 by (simp add: activate_later)
qed

lemma fold_setNotifications_short:
  assumes "\<forall>l \<in> set ls. length (g l) \<le> 1"
    and "\<forall>i < length (instances s). length (notifications (instances s ! i)) \<le> 1"
  shows "\<forall>i < length (instances s).
           length (notifications (instances (fold (\<lambda>l. setNotifications (owner l) (g l)) ls s) ! i)) \<le> 1"
  using assms
proof (induction ls arbitrary: s)
  case Nil
  then show ?case by simp
next
  case (Cons l ls)
  have len: "length (instances (setNotifications (owner l) (g l) s)) = length (instances s)"
    by (simp add: setNotifications_def)
  have "\<forall>i < length (instances s).
          length (notifications (instances (setNotifications (owner l) (g l) s) ! i)) \<le> 1"
    using Cons.prems by (simp add: setNotifications_nth)
  with Cons.IH [of "setNotifications (owner l) (g l) s"] Cons.prems(1) len
  show ?case by simp
qed

lemma step_stale:
  assumes "stale s"
  shows "stale (step e s)"
proof (cases e)
  case (Activate p)
  show ?thesis
  proof (cases "areListenersReady s")
    case True
    with assms Activate show ?thesis
      by (auto simp add: stale_def activate_later nth_append first_render_def)
  next
    case False
    with assms Activate show ?thesis
      by (auto simp add: stale_def activate_first nth_append first_render_def)
  qed
next
  case (Settle j)
  with assms show ?thesis
    by (simp add: stale_def settle_fields settle_cells)
next
  case (Receive n)
  have "\<forall>l \<in> set (notificationListeners s). length (n # closure_notifications l) \<le> 1"
    using assms by (simp add: stale_def)
  moreover have "\<forall>i < length (instances s). length (notifications (instances s ! i)) \<le> 1"
    using assms by (simp add: stale_def)
  ultimately have "\<forall>i < length (instances s). length (notifications (instances (receive n s) ! i)) \<le> 1"
    unfolding receive_def by (rule fold_setNotifications_short)
  with assms Receive show ?thesis
    by (simp add: stale_def receive_fields)
next
  case (Respond r)
  with assms show ?thesis by (simp add: stale_def respond_def)
next
  case (Teardown j)
  have "set (notificationListeners (teardown j s)) \<subseteq> set (notificationListeners s)"
    by (simp add: teardown_listeners)
  with assms Teardown show ?thesis
    by (auto simp add: stale_def teardown_fields teardown_cells)
qed

lemma run_stale: "stale s \<Longrightarrow> stale (run s es)"
  by (induction es arbitrary: s) (simp_all add: step_stale)

lemma stale_start: "stale process_start"
  by (simp add: stale_def process_start_def)

lemma receive_sole:
  "sole_listener s \<Longrightarrow> notifications (instances (receive n s) ! 0) = [n]"
  by (simp add: sole_listener_def receive_def setNotifications_nth)

lemma step_sole:
  assumes "sole_listener s" and "e \<noteq> Teardown 0"
  shows "sole_listener (step e s) \<and>
         notifications (instances (step e s) ! 0) =
           (case e of Receive n \<Rightarrow> [n] | _ \<Rightarrow> notifications (instances s ! 0))"
proof (cases e)
  case (Activate p)
  with assms show ?thesis
    by (auto simp add: sole_listener_def activate_later nth_append)
next
  case (Settle j)
  with assms show ?thesis
    by (auto simp add: sole_listener_def settle_fields settle_cells
        simp flip: length_greater_0_conv)
next
  case (Receive n)
  with assms receive_sole [OF assms(1), of n] show ?thesis
    by (auto simp add: sole_listener_def receive_fields simp flip: length_greater_0_conv)
next
  case (Respond r)
  with assms show ?thesis by (simp add: sole_listener_def respond_def)
next
  case (Teardown j)
  with assms have "j \<noteq> 0" by simp
  with assms Teardown show ?thesis
    by (auto simp add: sole_listener_def teardown_fields teardown_nth teardown_listeners
        simp flip: length_greater_0_conv)
qed

lemma run_sole:
  assumes "sole_listener s" and "Teardown 0 \<notin> set es"
  shows "sole_listener (run s es) \<and>
         notifications (instances (run s es) ! 0) =
           (if received es = [] then notifications (instances s ! 0) else [last (received es)])"
  using assms
proof (induction es arbitrary: s)
  case Nil
  then show ?case by simp
next
  case (Cons e es)
  from Cons.prems have e: "e \<noteq> Teardown 0" and es: "Teardown 0 \<notin> set es" by auto
  note st = step_sole [OF Cons.prems(1) e]
  from Cons.IH [OF conjunct1 [OF st] es] st
  show ?case by (cases e) auto
qed

lemma sole_first:
  "sole_listener (activate p (process_start :: 'n process)) \<and>
   notifications (instances (activate p (process_start :: 'n process)) ! 0) = []"
  by (simp add: sole_listener_def activate_first process_start_def first_render_def)

lemma teardown_sole: "sole_listener s \<Longrightarrow> silent (teardown 0 s)"
  by (auto simp add: sole_listener_def silent_def teardown_fields teardown_listeners)

lemma torn_down_silent:
  assumes "Teardown 0 \<in> set es"
  shows "silent (run (activate p (process_start :: 'n process)) es)"
proof -
  from assms obtain es1 es2 where es: "es = es1 @ Teardown 0 # es2"
    and nt: "Teardown 0 \<notin> set es1"
    by (auto dest: split_list_first)
  have "sole_listener (activate p (process_start :: 'n process))"
    using sole_first [of p] by blast
  from run_sole [OF this nt]
  have "sole_listener (run (activate p (process_start :: 'n process)) es1)"
    by blast
  then have "silent (teardown 0 (run (activate p (process_start :: 'n process)) es1))"
    by (rule teardown_sole)
  then have "silent (run (teardown 0 (run (activate p (process_start :: 'n process)) es1)) es2)"
    by (rule run_silent)
  then show ?thesis
    by (simp add: es run_append)
qed

lemma push_request_headers:
  "header (push_request text) ''Accept'' = Some ''application/json''"
  "header (push_request text) ''Accept-Encoding'' = Some ''gzip, deflate''"
  "header (push_request text) ''Content-Type'' = Some ''application/json''"
  by (simp_all add: push_request_def header_def lowercase_def)

lemma strings_serialisable: "first_some (map (stringify_TypeError \<circ> Str) xs) = None"
  by (induction xs) simp_all

lemma first_some_single: "first_some [x] = x"
  by (cases x) simp_all

lemma message_TypeError:
  "stringify_TypeError (message options) =
     (case data options of None \<Rightarrow> None | Some d \<Rightarrow> stringify_TypeError (Obj d))"
  by (simp add: message_def strings_serialisable first_some_single split: option.splits)

lemma message_stringify:
  assumes "case data options of None \<Rightarrow> True | Some d \<Rightarrow> serialisable (Obj d)"
  shows "JSON_stringify (message options) = Inr (JSON_text (message options))"
proof -
  have "stringify_TypeError (message options) = None"
    using assms by (cases "data options") (simp_all add: message_TypeError serialisable_def)
  then show ?thesis
    by (simp add: JSON_stringify_def)
qed

lemma example_options_serialisable:
  "case data example_options of None \<Rightarrow> True | Some d \<Rightarrow> serialisable (Obj d)"
  by (simp add: example_options_def)

lemma order_options_serialisable:
  "case data order_options of None \<Rightarrow> True | Some d \<Rightarrow> serialisable (Obj d)"
  by (simp add: order_options_def serialisable_def)

lemma register_emulator:
  "registerForPushNotificationsAsync emulator =
     ([SetNotificationChannelAsync ''default'' default_channel,
       Alert ''Must use physical device for push notifications''],
      Inl (ErrorObject ''Error'' ''Must use physical device for push notifications''))"
  by (simp add: registerForPushNotificationsAsync_def async_defs emulator_def new_Error_def)

lemma register_broken_emulator:
  "registerForPushNotificationsAsync broken_emulator =
     ([SetNotificationChannelAsync ''default'' default_channel],
      Inl (ErrorObject ''Error'' ''channel setup failed''))"
  by (simp add: registerForPushNotificationsAsync_def async_defs broken_emulator_def)

lemma project_config_resolves: "resolveProjectId project_config = Some ''project-1''"
  by (simp add: resolveProjectId_def expoConfig_source_def easConfig_source_def nullish_def
      project_config_def)

lemma empty_config_sources:
  "expoConfig_source empty_config = None" "easConfig_source empty_config = None"
  by (simp_all add: expoConfig_source_def easConfig_source_def empty_config_def)

section \<open>The registration procedure: properties\<close>

text \<open>
  C7, as the claim states it, fails: on an Android platform that is not a physical device
  and whose channel setup rejects, the registration rejects with the error of the channel
  setup, not with the error "Must use physical device for push notifications", and no
  alert is shown.
\<close>

theorem register_without_device_counterexample:
  "\<not> Device_isDevice broken_emulator \<and>
   registerForPushNotificationsAsync broken_emulator =
     ([SetNotificationChannelAsync ''default'' default_channel],
      Inl (ErrorObject ''Error'' ''channel setup failed'')) \<and>
   snd (registerForPushNotificationsAsync broken_emulator) \<noteq>
     Inl (new_Error ''Must use physical device for push notifications'')"
  by (simp add: register_broken_emulator new_Error_def) (simp add: broken_emulator_def)

text \<open>
  C7, amended. When the platform is not a physical device, the registration makes no
  permission query, no permission request and no network call. Where the channel setup
  that precedes the device check (on Android only) completes, the registration rejects
  with the error whose message is "Must use physical device for push notifications",
  having done the channel setup (on Android) and the alert and nothing else.
\<close>

theorem register_not_physical_device:
  assumes "\<not> Device_isDevice p"
  shows "filter (\<lambda>e. is_permission_call e \<or> is_network_call e)
           (fst (registerForPushNotificationsAsync p)) = [] \<and>
         (channel_ready p \<longrightarrow>
            snd (registerForPushNotificationsAsync p) =
              Inl (new_Error ''Must use physical device for push notifications'') \<and>
            fst (registerForPushNotificationsAsync p) =
              (if Platform_OS p = ''android''
               then [SetNotificationChannelAsync ''default'' default_channel] else []) @
              [Alert ''Must use physical device for push notifications''])"
proof (intro conjI impI)
  show "filter (\<lambda>e. is_permission_call e \<or> is_network_call e)
           (fst (registerForPushNotificationsAsync p)) = []"
    using assms
    by (cases "setNotificationChannelAsync p")
       (simp_all add: registerForPushNotificationsAsync_def async_defs is_permission_call_def)
next
  assume "channel_ready p"
  with assms show "snd (registerForPushNotificationsAsync p) =
              Inl (new_Error ''Must use physical device for push notifications'')"
    and "fst (registerForPushNotificationsAsync p) =
              (if Platform_OS p = ''android''
               then [SetNotificationChannelAsync ''default'' default_channel] else []) @
              [Alert ''Must use physical device for push notifications'']"
    by (simp_all add: registerForPushNotificationsAsync_def async_defs channel_ready_def)
qed

theorem register_not_physical_device_witness:
  "\<not> Device_isDevice emulator \<and>
   Platform_OS emulator = ''android'' \<and> setNotificationChannelAsync emulator = Inr () \<and>
   snd (registerForPushNotificationsAsync emulator) =
     Inl (ErrorObject ''Error'' ''Must use physical device for push notifications'') \<and>
   filter (\<lambda>e. is_permission_call e \<or> is_network_call e)
     (fst (registerForPushNotificationsAsync emulator)) = []"
proof -
  have h: "\<not> Device_isDevice emulator" and c: "channel_ready emulator"
    by (simp_all add: emulator_def channel_ready_def)
  have "Platform_OS emulator = ''android''" and "setNotificationChannelAsync emulator = Inr ()"
    by (simp_all add: emulator_def)
  with register_not_physical_device [OF h] h c show ?thesis
    unfolding new_Error_def by blast
qed

text \<open>
  C8. On a physical device where permission is granted (the channel setup, where made,
  has completed, the permission query has answered, and its answer or that of the
  request is "granted") and neither configuration source holds a project identifier, the
  registration rejects with the error whose message is "Project ID not found", and it
  has made no network call: the token is never requested.
\<close>

theorem register_missing_project_id:
  assumes "Device_isDevice p"
    and "channel_ready p"
    and "getPermissionsAsync p = Inr existingStatus"
    and "existingStatus = Granted \<or> requestPermissionsAsync p = Inr Granted"
    and "expoConfig_source (Constants p) = None"
    and "easConfig_source (Constants p) = None"
  shows "snd (registerForPushNotificationsAsync p) = Inl (new_Error ''Project ID not found'') \<and>
         filter is_network_call (fst (registerForPushNotificationsAsync p)) = []"
  using assms
  by (auto simp add: registerForPushNotificationsAsync_def async_defs resolveProjectId_def
      nullish_def truthy_def channel_ready_def)

theorem register_missing_project_id_witness:
  "Device_isDevice unconfigured_phone \<and>
   Platform_OS unconfigured_phone = ''android'' \<and>
   setNotificationChannelAsync unconfigured_phone = Inr () \<and>
   getPermissionsAsync unconfigured_phone = Inr Undetermined \<and>
   (Undetermined = Granted \<or> requestPermissionsAsync unconfigured_phone = Inr Granted) \<and>
   expoConfig_source (Constants unconfigured_phone) = None \<and>
   easConfig_source (Constants unconfigured_phone) = None \<and>
   snd (registerForPushNotificationsAsync unconfigured_phone) =
     Inl (ErrorObject ''Error'' ''Project ID not found'') \<and>
   filter is_network_call (fst (registerForPushNotificationsAsync unconfigured_phone)) = []"
proof -
  have h1: "Device_isDevice unconfigured_phone"
    and h2: "channel_ready unconfigured_phone"
    and h3: "getPermissionsAsync unconfigured_phone = Inr Undetermined"
    and h4: "Undetermined = Granted \<or> requestPermissionsAsync unconfigured_phone = Inr Granted"
    and h5: "expoConfig_source (Constants unconfigured_phone) = None"
    and h6: "easConfig_source (Constants unconfigured_phone) = None"
    by (simp_all add: unconfigured_phone_def empty_config_sources channel_ready_def)
  have "Platform_OS unconfigured_phone = ''android''"
    and "setNotificationChannelAsync unconfigured_phone = Inr ()"
    by (simp_all add: unconfigured_phone_def)
  with register_missing_project_id [OF h1 h2 h3 h4 h5 h6] h1 h3 h4 h5 h6 show ?thesis
    unfolding new_Error_def by blast
qed

text \<open>
  C9. On a physical device with permission already granted (the channel setup, where
  made, has completed and the permission query answers "granted") and a project
  identifier that resolves, when the provider answers the token request with a token, the
  registration resolves with exactly that token; so it does for the token
  "ExponentPushToken[abc123]".
\<close>

theorem register_returns_provider_token:
  assumes "Device_isDevice p"
    and "channel_ready p"
    and "getPermissionsAsync p = Inr Granted"
    and "truthy (resolveProjectId (Constants p))"
    and "getExpoPushTokenAsync p (resolveProjectId (Constants p)) = Inr pushTokenString"
  shows "snd (registerForPushNotificationsAsync p) = Inr (Some pushTokenString)"
  using assms
  by (auto simp add: registerForPushNotificationsAsync_def async_defs channel_ready_def)

theorem register_returns_provider_token_witness:
  "Device_isDevice phone \<and> Platform_OS phone = ''ios'' \<and>
   getPermissionsAsync phone = Inr Granted \<and>
   truthy (resolveProjectId (Constants phone)) \<and>
   getExpoPushTokenAsync phone (resolveProjectId (Constants phone)) =
     Inr ''ExponentPushToken[abc123]'' \<and>
   snd (registerForPushNotificationsAsync phone) = Inr (Some ''ExponentPushToken[abc123]'')"
proof -
  have h1: "Device_isDevice phone"
    and h2: "channel_ready phone"
    and h3: "getPermissionsAsync phone = Inr Granted"
    and h4: "truthy (resolveProjectId (Constants phone))"
    and h5: "getExpoPushTokenAsync phone (resolveProjectId (Constants phone)) =
             Inr ''ExponentPushToken[abc123]''"
    by (simp_all add: phone_def project_config_resolves truthy_def provider_def channel_ready_def)
  have "Platform_OS phone = ''ios''"
    by (simp add: phone_def)
  with register_returns_provider_token [OF h1 h2 h3 h4 h5] h1 h3 h4 h5 show ?thesis
    by blast
qed

section \<open>sendPushNotification: properties\<close>

text \<open>
  C3, as the claim states it, fails: when the POST itself fails, the promise of
  \<^verbatim>\<open>sendPushNotification\<close> rejects with the error of the POST.
\<close>

theorem send_swallows_failure_counterexample:
  "snd (sendPushNotification network_down example_options) =
     Inl (ErrorObject ''TypeError'' ''Network request failed'')"
  by (simp add: sendPushNotification_def async_defs network_down_def
      message_stringify [OF example_options_serialisable])

text \<open>
  C3, amended. \<^verbatim>\<open>sendPushNotification\<close> neither catches nor examines the outcome of
  the POST. When the POST yields a response, whatever its HTTP status, the call completes
  without error and without a value. When the POST itself fails (a network failure), the
  promise of the call rejects with that same error, which so reaches the caller. (Where
  the message cannot be serialised there is no POST, and the promise rejects with the
  error of the serialiser.)
\<close>

theorem send_settles_as_post:
  "snd (sendPushNotification fetch options) =
     (case JSON_stringify (message options) of
        Inl e \<Rightarrow> Inl e
      | Inr text \<Rightarrow>
          (case fetch (push_request text) of Inl e \<Rightarrow> Inl e | Inr response \<Rightarrow> Inr ()))"
  by (simp add: sendPushNotification_def async_defs split: sum.splits)

theorem send_settles_as_post_witness:
  "snd (sendPushNotification bad_request example_options) = Inr ()"
  using send_settles_as_post [of bad_request example_options]
  by (simp add: bad_request_def message_stringify [OF example_options_serialisable])

text \<open>
  C10, as the claim states it, fails: when \<open>data\<close> holds a bigint, the serialisation of
  the message throws before \<^verbatim>\<open>fetch\<close> is called, so the call issues no request at all
  and its promise rejects.
\<close>

theorem send_without_post_counterexample:
  "fst (sendPushNotification server_error bigint_options) = [] \<and>
   isl (snd (sendPushNotification server_error bigint_options))"
  by (simp add: sendPushNotification_def async_defs JSON_stringify_def message_def
      bigint_options_def)

text \<open>
  C10, amended. A call of \<^verbatim>\<open>sendPushNotification\<close> with the options \<open>to\<close>, \<open>title\<close>,
  \<open>body\<close> and the optional \<open>data\<close>, where \<open>data\<close> is absent or is a value that
  \<^verbatim>\<open>JSON.stringify\<close> can serialise (it holds no bigint and no cyclic reference), issues
  exactly one HTTP request: a POST to the push-send endpoint of the provider, with the
  three headers Accept: application/json, Accept-Encoding: gzip, deflate and
  Content-Type: application/json, whose body is the JSON text of the envelope to, sound
  "default", title, body, data. When the POST yields a response, whatever its HTTP
  status, the call does not throw.
\<close>

theorem send_issues_one_post:
  assumes "case data options of None \<Rightarrow> True | Some d \<Rightarrow> serialisable (Obj d)"
  shows
  "\<exists>r. fst (sendPushNotification fetch options) = [Fetch r] \<and>
       url r = ''https://exp.host/--/api/v2/push/send'' \<and>
       request_method r = ''POST'' \<and>
       length (headers r) = 3 \<and>
       header r ''Accept'' = Some ''application/json'' \<and>
       header r ''Accept-Encoding'' = Some ''gzip, deflate'' \<and>
       header r ''Content-Type'' = Some ''application/json'' \<and>
       request_body r =
         JSON_text
           (Obj [(''to'', Arr (map Str (to options))),
                 (''sound'', Str ''default''),
                 (''title'', Str (title options)),
                 (''body'', Str (body options)),
                 (''data'', (case data options of None \<Rightarrow> Undefined | Some d \<Rightarrow> Obj d))]) \<and>
       (\<forall>response. fetch r = Inr response \<longrightarrow>
          snd (sendPushNotification fetch options) = Inr ())"
proof (intro exI [of _ "push_request (JSON_text (message options))"] conjI allI impI)
  note ser = message_stringify [OF assms]
  show "fst (sendPushNotification fetch options) =
        [Fetch (push_request (JSON_text (message options)))]"
    by (simp add: sendPushNotification_def async_defs ser split: sum.splits)
  show "snd (sendPushNotification fetch options) = Inr ()"
    if "fetch (push_request (JSON_text (message options))) = Inr response" for response
    using that by (simp add: sendPushNotification_def async_defs ser)
qed (simp_all add: push_request_headers, simp_all add: push_request_def message_def)

theorem send_issues_one_post_witness:
  "data order_options = Some [(''order'', Num 7), (''items'', Arr [Str ''a'', Null])] \<and>
   serialisable (Obj [(''order'', Num 7), (''items'', Arr [Str ''a'', Null])]) \<and>
   (\<exists>r. fst (sendPushNotification server_error order_options) = [Fetch r] \<and>
       server_error r = Inr \<lparr> status = 500 \<rparr> \<and>
       request_body r =
         JSON_text
           (Obj [(''to'', Arr [Str ''tok1'', Str ''tok2'']), (''sound'', Str ''default''),
                 (''title'', Str ''Order''), (''body'', Str ''Shipped''),
                 (''data'', Obj [(''order'', Num 7), (''items'', Arr [Str ''a'', Null])])]) \<and>
       snd (sendPushNotification server_error order_options) = Inr ())"
proof -
  from send_issues_one_post [OF order_options_serialisable, of server_error]
  obtain r where r: "fst (sendPushNotification server_error order_options) = [Fetch r]"
    and b: "request_body r =
         JSON_text
           (Obj [(''to'', Arr (map Str (to order_options))),
                 (''sound'', Str ''default''),
                 (''title'', Str (title order_options)),
                 (''body'', Str (body order_options)),
                 (''data'', (case data order_options of None \<Rightarrow> Undefined | Some d \<Rightarrow> Obj d))])"
    and t: "\<forall>response. server_error r = Inr response \<longrightarrow>
          snd (sendPushNotification server_error order_options) = Inr ()"
    by blast
  have e: "server_error r = Inr \<lparr> status = 500 \<rparr>"
    by (simp add: server_error_def)
  with t have "snd (sendPushNotification server_error order_options) = Inr ()"
    by blast
  moreover have "data order_options = Some [(''order'', Num 7), (''items'', Arr [Str ''a'', Null])]"
    and "serialisable (Obj [(''order'', Num 7), (''items'', Arr [Str ''a'', Null])])"
    by (simp_all add: order_options_def serialisable_def)
  ultimately show ?thesis
    using r b e by (auto simp add: order_options_def)
qed

section \<open>The hook: properties\<close>

lemma phone_first:
  "sole_listener (activate phone (process_start :: string process)) \<and>
   notifications (instances (activate phone (process_start :: string process)) ! 0) = []"
  by (rule sole_first)

text \<open>
  C1. The handler of a received notification is meant to put the new record in front of
  the stored list. Run on the code, a first activation followed by the records A, B
  leaves the stored list [B], and a third record C leaves [C]: the records before the
  newest are lost, where the claim has [B, A] and then [C, B, A].
\<close>

theorem received_records_are_not_accumulated:
  "notifications
     (instances (run process_start [Activate phone, Receive ''A'', Receive ''B'']) ! 0) = [''B''] \<and>
   notifications
     (instances (run process_start [Activate phone, Receive ''A'', Receive ''B'', Receive ''C'']) ! 0)
     = [''C'']"
proof -
  have "notifications
          (instances (run (activate phone process_start) [Receive ''A'', Receive ''B'']) ! 0) = [''B'']"
    using run_sole [OF conjunct1 [OF phone_first], of "[Receive ''A'', Receive ''B'']"]
    by simp
  moreover have "notifications
          (instances (run (activate phone process_start)
             [Receive ''A'', Receive ''B'', Receive ''C'']) ! 0) = [''C'']"
    using run_sole [OF conjunct1 [OF phone_first], of "[Receive ''A'', Receive ''B'', Receive ''C'']"]
    by simp
  ultimately show ?thesis by simp
qed

text \<open>
  C2. The handler installed by the hook reads the \<^verbatim>\<open>notifications\<close> of the render in
  which the listener was attached, which is the initial empty list. So in every state the
  process can reach, every subscription reads the empty list and every stored list has
  at most one record; and after the first activation, as long as its listener stays
  attached, the stored list of that activation is empty while nothing was received and
  holds exactly the record received last afterwards.
\<close>

theorem stored_list_holds_latest_only:
  fixes es :: "'n event list" and es' :: "'n event list"
  shows
  "(\<forall>l \<in> set (notificationListeners (run process_start es)). closure_notifications l = []) \<and>
   (\<forall>i < length (instances (run process_start es)).
      length (notifications (instances (run process_start es) ! i)) \<le> 1) \<and>
   (Teardown 0 \<notin> set es' \<longrightarrow>
      notifications (instances (run process_start (Activate p # es')) ! 0) =
        (if received es' = [] then [] else [last (received es')]))"
proof (intro conjI impI)
  have "stale (run process_start es)"
    using stale_start by (rule run_stale)
  then show "\<forall>l \<in> set (notificationListeners (run process_start es)). closure_notifications l = []"
    and "\<forall>i < length (instances (run process_start es)).
      length (notifications (instances (run process_start es) ! i)) \<le> 1"
    by (simp_all add: stale_def)
next
  assume nt: "Teardown 0 \<notin> set es'"
  have s: "sole_listener (activate p (process_start :: 'n process))"
    and n: "notifications (instances (activate p (process_start :: 'n process)) ! 0) = []"
    using sole_first [of p] by blast+
  from run_sole [OF s nt] n
  show "notifications (instances (run process_start (Activate p # es')) ! 0) =
        (if received es' = [] then [] else [last (received es')])"
    by simp
qed

theorem stored_list_holds_latest_only_witness:
  "notificationListeners
     (run (process_start :: string process) [Activate phone, Receive ''first'', Settle 0, Receive ''second''])
     = [\<lparr>owner = 0, closure_notifications = []\<rparr>] \<and>
   0 < length (instances
     (run (process_start :: string process) [Activate phone, Receive ''first'', Settle 0, Receive ''second''])) \<and>
   Teardown 0 \<notin> set [Receive ''first'', Settle 0, Receive ''second''] \<and>
   notifications (instances
     (run (process_start :: string process) [Activate phone, Receive ''first'', Settle 0, Receive ''second'']) ! 0)
     = [''second'']"
proof -
  let ?es = "[Receive ''first'', Settle 0, Receive ''second'']"
  have nt: "Teardown 0 \<notin> set ?es"
    by simp
  have "sole_listener (run (activate phone (process_start :: string process)) ?es)"
    using run_sole [OF conjunct1 [OF phone_first] nt] by blast
  then have l: "notificationListeners (run (process_start :: string process) (Activate phone # ?es))
        = [\<lparr>owner = 0, closure_notifications = []\<rparr>]"
    and i: "0 < length (instances (run (process_start :: string process) (Activate phone # ?es)))"
    by (simp_all add: sole_listener_def)
  from stored_list_holds_latest_only [of "Activate phone # ?es" ?es phone] nt
  have "notifications (instances (run (process_start :: string process) (Activate phone # ?es)) ! 0)
        = [''second'']"
    by simp
  with l i nt show ?thesis by simp
qed

text \<open>
  C4. Once the hook has been activated, the guard is set for the rest of the process. An
  activation that finds the guard set attaches no listener and does not call the
  registration: the subscriptions and the effects of the process are unchanged, and the
  new activation starts with no registration in flight. From then on the guard stays set
  and the token of that activation stays the empty string, whatever happens in the
  process.
\<close>

theorem later_activation_is_skipped:
  fixes s :: "'n process"
  assumes "areListenersReady s"
  shows "areListenersReady (run (process_start :: 'n process) (Activate p0 # es0)) \<and>
         notificationListeners (activate p s) = notificationListeners s \<and>
         responseListeners (activate p s) = responseListeners s \<and>
         effects (activate p s) = effects s \<and>
         instances (activate p s) = instances s @ [first_render] \<and>
         (\<forall>es. areListenersReady (run (activate p s) es) \<and>
               expoPushToken (instances (run (activate p s) es) ! length (instances s)) = [])"
proof -
  have "areListenersReady (activate p0 (process_start :: 'n process))"
    by (simp add: activate_first process_start_def)
  then have first: "areListenersReady (run (process_start :: 'n process) (Activate p0 # es0))"
    by (simp add: run_guard)
  have "settled (length (instances s)) [] (activate p s)"
    using assms by (simp add: settled_def activate_later first_render_def)
  then have "\<And>es. settled (length (instances s)) [] (run (activate p s) es)"
    by (rule run_settled)
  then show ?thesis
    using assms first by (simp add: activate_later settled_def)
qed

theorem later_activation_is_skipped_witness:
  "areListenersReady (activate emulator (process_start :: string process)) \<and>
   effects (activate phone (activate emulator (process_start :: string process))) =
     effects (activate emulator (process_start :: string process)) \<and>
   areListenersReady
     (run (activate phone (activate emulator (process_start :: string process)))
        [Teardown 0, Activate phone]) \<and>
   expoPushToken
     (instances
        (run (activate phone (activate emulator (process_start :: string process)))
           [Settle 1, Receive ''A'', Teardown 0]) ! 1) = []"
proof -
  let ?s = "activate emulator (process_start :: string process)"
  have h: "areListenersReady ?s"
    by (simp add: activate_first process_start_def)
  have len: "length (instances ?s) = 1"
    by (simp add: activate_first process_start_def)
  note t = later_activation_is_skipped [OF h, of phone]
  from t have e: "effects (activate phone ?s) = effects ?s"
    by blast
  from t have a: "\<forall>es. areListenersReady (run (activate phone ?s) es) \<and>
      expoPushToken (instances (run (activate phone ?s) es) ! length (instances ?s)) = []"
    by blast
  from a have "areListenersReady (run (activate phone ?s) [Teardown 0, Activate phone])"
    by blast
  moreover from a have "expoPushToken
      (instances (run (activate phone ?s) [Settle 1, Receive ''A'', Teardown 0]) ! length (instances ?s)) = []"
    by blast
  ultimately show ?thesis
    using h e len by simp
qed

text \<open>
  C5, as the claim states it, fails: when the view of the first activation is torn down
  and the hook is activated again, no subscription to received notifications exists
  afterwards, and an incoming record is stored in no list.
\<close>

theorem listeners_after_remount_counterexample:
  "length (notificationListeners
     (run (process_start :: string process) [Activate phone, Teardown 0, Activate phone])) = 0 \<and>
   map notifications (instances
     (run (process_start :: string process)
        [Activate phone, Teardown 0, Activate phone, Receive ''A''])) = [[], []]"
proof -
  have a1: "\<not> areListenersReady (process_start :: string process)"
    by (simp add: process_start_def)
  let ?s = "teardown 0 (activate phone (process_start :: string process))"
  have s: "areListenersReady ?s" "notificationListeners ?s = []"
    "map notifications (instances ?s) = [[]]"
    unfolding activate_first [OF a1]
    by (simp_all add: process_start_def teardown_def run_cleanup_def first_render_def)
  then show ?thesis
    by (simp add: activate_later receive_def first_render_def)
qed

text \<open>
  C5, amended. The listeners are attached at most once in a process. After two
  activations of the hook with the view of the first still mounted there is exactly one
  subscription to received notifications, and one incoming record then adds exactly one
  entry to the stored lists: the list of the first activation holds it, the list of the
  second stays empty. The same count holds after any number of further activations and
  other events as long as the first view is not torn down; once it has been torn down
  there is no subscription any more, because the guard is never reset. In every state
  the process can reach there is at most one such subscription.
\<close>

theorem listeners_attached_once:
  fixes n :: 'n and es :: "'n event list"
  shows
  "length (notificationListeners
     (run (process_start :: 'n process) [Activate p1, Activate p2])) = 1 \<and>
   map notifications (instances (run process_start [Activate p1, Activate p2, Receive n])) =
     [[n], []] \<and>
   length (notificationListeners (run process_start (Activate p1 # es))) =
     (if Teardown 0 \<in> set es then 0 else 1) \<and>
   length (notificationListeners (run process_start es)) \<le> 1"
proof (intro conjI)
  show "length (notificationListeners
     (run (process_start :: 'n process) [Activate p1, Activate p2])) = 1"
    by (simp add: activate_twice)
  show "map notifications (instances (run process_start [Activate p1, Activate p2, Receive n])) =
     [[n], []]"
    by (simp add: activate_twice receive_def setNotifications_def first_render_def)
  show "length (notificationListeners (run process_start es)) \<le> 1"
    using start_guarded [of es] by (simp add: guarded_def)
  show "length (notificationListeners (run process_start (Activate p1 # es))) =
     (if Teardown 0 \<in> set es then 0 else 1)"
  proof (cases "Teardown 0 \<in> set es")
    case True
    from torn_down_silent [OF this, of p1] True show ?thesis
      by (simp add: silent_def)
  next
    case False
    have "sole_listener (activate p1 (process_start :: 'n process))"
      using sole_first [of p1] by blast
    from run_sole [OF this False] False show ?thesis
      by (simp add: sole_listener_def)
  qed
qed

theorem listeners_attached_once_witness:
  "length (notificationListeners
     (run (process_start :: string process) [Activate emulator, Activate phone])) = 1 \<and>
   map notifications (instances
     (run (process_start :: string process) [Activate emulator, Activate phone, Receive ''A'']))
     = [[''A''], []] \<and>
   Teardown 0 \<notin> set [Settle 0, Activate phone, Receive ''A'', Activate phone :: string event] \<and>
   length (notificationListeners
     (run (process_start :: string process)
        [Activate emulator, Settle 0, Activate phone, Receive ''A'', Activate phone])) = 1"
  using listeners_attached_once
    [of emulator phone "''A''" "[Settle 0, Activate phone, Receive ''A'', Activate phone]"]
  by simp

text \<open>
  C6. When the registration called by a first activation rejects with an error, the
  callbacks of the hook handle the rejection, so no unhandled rejection leaves the hook;
  and with the view of the activation mounted when the promise settles, they store the
  string form of that error as the token of the activation, where it stays, whatever else
  happens before and after.
\<close>

theorem registration_error_becomes_token:
  assumes "\<not> areListenersReady s"
    and "snd (registerForPushNotificationsAsync p) = Inl e"
    and "Settle (length (instances s)) \<notin> set es"
    and "Teardown (length (instances s)) \<notin> set es"
  shows "expoPushToken
           (instances (run (activate p s) (es @ Settle (length (instances s)) # es')) !
              length (instances s)) = template e \<and>
         unhandledRejections (run (activate p s) (es @ Settle (length (instances s)) # es')) =
           unhandledRejections s"
proof -
  let ?i = "length (instances s)"
  have "pending ?i (Inl e) (activate p s)"
    using activate_pending [OF assms(1), of p] assms(2) by simp
  then have "pending ?i (Inl e) (run (activate p s) es)"
    using assms(3,4) by (rule run_pending)
  then have "settled ?i (template e) (settle ?i (run (activate p s) es))"
    using settle_pending_settled by fastforce
  then have "settled ?i (template e) (run (settle ?i (run (activate p s) es)) es')"
    by (rule run_settled)
  then have "expoPushToken (instances (run (activate p s) (es @ Settle ?i # es')) ! ?i) = template e"
    by (simp add: settled_def run_append)
  moreover have "unhandledRejections (activate p s) = unhandledRejections s"
    using assms(1) by (simp add: activate_first)
  ultimately show ?thesis
    by (simp add: run_unhandled)
qed

theorem registration_error_becomes_token_witness:
  "\<not> areListenersReady (process_start :: string process) \<and>
   snd (registerForPushNotificationsAsync emulator) =
     Inl (ErrorObject ''Error'' ''Must use physical device for push notifications'') \<and>
   Settle (length (instances (process_start :: string process))) \<notin> set [Receive ''A''] \<and>
   Teardown (length (instances (process_start :: string process))) \<notin> set [Receive ''A''] \<and>
   expoPushToken
     (instances (run (activate emulator (process_start :: string process))
        [Receive ''A'', Settle 0, Teardown 0]) ! 0) =
     ''Error: Must use physical device for push notifications'' \<and>
   unhandledRejections (run (activate emulator (process_start :: string process))
        [Receive ''A'', Settle 0, Teardown 0]) = []"
proof -
  have h1: "\<not> areListenersReady (process_start :: string process)"
    and len: "length (instances (process_start :: string process)) = 0"
    and u: "unhandledRejections (process_start :: string process) = []"
    by (simp_all add: process_start_def)
  have h2: "snd (registerForPushNotificationsAsync emulator) =
     Inl (ErrorObject ''Error'' ''Must use physical device for push notifications'')"
    by (simp add: register_emulator)
  have h3: "Settle (length (instances (process_start :: string process))) \<notin> set [Receive ''A'']"
    and h4: "Teardown (length (instances (process_start :: string process))) \<notin> set [Receive ''A'']"
    by simp_all
  from registration_error_becomes_token [OF h1 h2 h3 h4, of "[Teardown 0]"] h1 h2 h3 h4 len u
  show ?thesis by simp
qed

end
